theory Spec2Isabelle
  imports Complex_Main "HOL-Library.Word"
begin

section \<open>Overlay state machine (state\_machine.py)\<close>

subsection \<open>Python floats\<close>

text \<open>
  A Python float is modelled as a real number or NaN. The arithmetic of the source is
  taken in exact real arithmetic; comparisons follow IEEE: every comparison with NaN is
  false. The built-ins \<open>min(a, b)\<close> and \<open>max(a, b)\<close> keep their first argument unless
  the second one compares strictly smaller (larger).
\<close>

datatype pyfloat = Fin real | NaN

fun py_lt :: "pyfloat \<Rightarrow> pyfloat \<Rightarrow> bool" where
  "py_lt (Fin a) (Fin b) = (a < b)"
| "py_lt _ _ = False"

definition py_gt :: "pyfloat \<Rightarrow> pyfloat \<Rightarrow> bool" where
  "py_gt a b = py_lt b a"

definition py_min :: "pyfloat \<Rightarrow> pyfloat \<Rightarrow> pyfloat" where
  "py_min a b = (if py_lt b a then b else a)"

definition py_max :: "pyfloat \<Rightarrow> pyfloat \<Rightarrow> pyfloat" where
  "py_max a b = (if py_gt b a then b else a)"

subsection \<open>States and payload records\<close>

datatype OverlayState = IDLE | LISTENING | PROCESSING | ACTION | GESTURE | KEYPAD

record ActionData =
  message :: string
  icon :: "string option"

record 'lm GestureData =
  hand_landmarks :: "'lm list"
  active_finger :: "int option"
  hover_key :: "string option"

record KeyData =
  label :: string
  code :: string
  width :: real
  is_action :: bool

record KeypadData =
  active_key :: "string option"
  rows :: "KeyData list list"

text \<open>The dataclass constructors, with their default arguments.\<close>

definition ActionData_new :: ActionData where
  "ActionData_new = \<lparr>message = '''', icon = None\<rparr>"

definition GestureData_new :: "'lm GestureData" where
  "GestureData_new = \<lparr>hand_landmarks = [], active_finger = None, hover_key = None\<rparr>"

definition KeyData_new :: "string \<Rightarrow> string \<Rightarrow> KeyData" where
  "KeyData_new l c = \<lparr>label = l, code = c, width = 1.0, is_action = False\<rparr>"

definition KeyData_new4 :: "string \<Rightarrow> string \<Rightarrow> real \<Rightarrow> bool \<Rightarrow> KeyData" where
  "KeyData_new4 l c w a = \<lparr>label = l, code = c, width = w, is_action = a\<rparr>"

text \<open>\<open>[KeyData(k, k) for k in s]\<close>\<close>

definition char_keys :: "string \<Rightarrow> KeyData list" where
  "char_keys s = map (\<lambda>k. KeyData_new [k] [k]) s"

text \<open>The \<open>default_factory\<close> of the field \<open>rows\<close>.\<close>

definition rows_default_factory :: "KeyData list list" where
  "rows_default_factory =
    [ char_keys ''`1234567890-='' @ [KeyData_new4 ''Back'' ''backspace'' 2.0 True],
      [KeyData_new4 ''Tab'' ''tab'' 1.5 True] @ char_keys (''mwertyuiop[]'' @ [CHR 0x5C]) ]"

text \<open>
  \<open>_init_layout\<close>. The label of the backspace key is the single code point U+232B,
  written here as its three UTF-8 bytes.
\<close>

definition init_layout :: "KeypadData \<Rightarrow> KeypadData" where
  "init_layout self = self\<lparr>rows :=
    [ char_keys ''`1234567890-=''
        @ [KeyData_new4 [CHR 0xE2, CHR 0x8C, CHR 0xAB] ''backspace'' 2.0 True],
      [KeyData_new4 ''Tab'' ''tab'' 1.5 True] @ char_keys (''qwertyuiop[]'' @ [CHR 0x5C]),
      [KeyData_new4 ''Caps'' ''capslock'' 1.8 True] @ char_keys ''asdfghjkl;'' @ char_keys [CHR 0x27]
        @ [KeyData_new4 ''Enter'' ''enter'' 2.2 True],
      [KeyData_new4 ''Shift'' ''shift'' 2.3 True] @ char_keys ''zxcvbnm,./''
        @ [KeyData_new4 ''Shift'' ''shift'' 2.3 True],
      [KeyData_new4 ''Ctrl'' ''ctrl'' 1.5 True, KeyData_new4 ''Win'' ''win'' 1.5 True,
       KeyData_new4 ''Alt'' ''alt'' 1.5 True,
       KeyData_new4 ''SPACE'' ''space'' 6.0 False,
       KeyData_new4 ''Alt'' ''alt'' 1.5 True, KeyData_new4 ''Fn'' ''fn'' 1.5 True,
       KeyData_new4 ''Ctrl'' ''ctrl'' 1.5 True] ]\<rparr>"

text \<open>\<open>__post_init__\<close>: the full layout is installed only when \<open>rows\<close> is empty.\<close>

definition post_init :: "KeypadData \<Rightarrow> KeypadData" where
  "post_init self = (if rows self = [] then init_layout self else self)"

text \<open>
  \<open>KeypadData(active_key, rows)\<close>: an argument that is not passed is \<open>None\<close> here and
  takes the field's default; \<open>__post_init__\<close> runs after the fields are set.
\<close>

definition KeypadData_new :: "string option option \<Rightarrow> KeyData list list option \<Rightarrow> KeypadData" where
  "KeypadData_new ak rs = post_init
     \<lparr>active_key = (case ak of None \<Rightarrow> None | Some k \<Rightarrow> k),
      rows = (case rs of None \<Rightarrow> rows_default_factory | Some r \<Rightarrow> r)\<rparr>"

subsection \<open>Listeners\<close>

text \<open>
  A listener is a callable object of the application. The state machine's list holds
  references to the registered callables, in registration order and with repetitions;
  \<open>callables\<close> gives the behaviour of each reference. A listener is called with the old and
  the new state; it acts on the rest of the program (the world \<open>'w\<close> and standard output)
  and may call back into the state machine that notifies it, so it is given the state
  machine and returns it as it leaves it; then it returns or raises. What it raises is an
  instance of \<open>Exception\<close>, or of another subclass of \<open>BaseException\<close> (\<open>KeyboardInterrupt\<close>,
  \<open>SystemExit\<close>), which \<open>except Exception\<close> does not catch. The string is \<open>str(e)\<close>.
\<close>

datatype py_raise = Exception_raised string | BaseException_raised string

type_synonym callable_ref = nat

record 'w runtime =
  world :: 'w
  stdout :: "string list"

record 'lm OverlayStateMachine =
  state :: OverlayState
  previous_state :: OverlayState
  listeners :: "callable_ref list"
  action_data :: ActionData
  gesture_data :: "'lm GestureData"
  keypad_data :: KeypadData
  audio_level :: pyfloat

text \<open>
  What a call leaves: what escapes from it (\<open>None\<close> when it returns normally), the state
  machine and the runtime as they are when it ends.
\<close>

type_synonym ('lm, 'w) outcome = "py_raise option \<times> 'lm OverlayStateMachine \<times> 'w runtime"

type_synonym ('lm, 'w) callable =
  "OverlayState \<Rightarrow> OverlayState \<Rightarrow> 'lm OverlayStateMachine \<Rightarrow> 'w runtime \<Rightarrow> ('lm, 'w) outcome"

type_synonym ('lm, 'w) callables = "callable_ref \<Rightarrow> ('lm, 'w) callable"

definition OverlayStateMachine_init :: "'lm OverlayStateMachine" where
  "OverlayStateMachine_init =
    \<lparr>state = IDLE, previous_state = IDLE, listeners = [],
     action_data = ActionData_new, gesture_data = GestureData_new,
     keypad_data = KeypadData_new None None, audio_level = Fin 0.0\<rparr>"

definition add_listener :: "'lm OverlayStateMachine \<Rightarrow> callable_ref \<Rightarrow> 'lm OverlayStateMachine" where
  "add_listener self callback = self\<lparr>listeners := listeners self @ [callback]\<rparr>"

text \<open>\<open>list.remove\<close> removes the first occurrence.\<close>

definition remove_listener :: "'lm OverlayStateMachine \<Rightarrow> callable_ref \<Rightarrow> 'lm OverlayStateMachine" where
  "remove_listener self callback =
     (if callback \<in> set (listeners self)
      then self\<lparr>listeners := remove1 callback (listeners self)\<rparr> else self)"

text \<open>
  \<open>_notify_listeners\<close>: the \<open>for\<close> loop over \<open>self._listeners\<close>. The list iterator keeps an
  index into the list object itself; before each step it compares the index with the length
  the list has at that moment, so what a listener appended or removed in the meantime
  counts. The loop is at index \<open>i\<close> here. An \<open>Exception\<close> is caught and printed and the loop
  goes on; anything else that is raised leaves the loop and the call. A loop that never ends
  (every listener appending another one) has the value \<open>None\<close>.
\<close>

partial_function (option) notify_from :: "('lm, 'w) callables \<Rightarrow> OverlayState \<Rightarrow> OverlayState
    \<Rightarrow> nat \<Rightarrow> 'lm OverlayStateMachine \<Rightarrow> 'w runtime \<Rightarrow> ('lm, 'w) outcome option" where
  "notify_from callables old_state new_state i self rt =
    (if i < length (listeners self) then
       (case callables (listeners self ! i) old_state new_state self rt of
          (None, self', rt') \<Rightarrow> notify_from callables old_state new_state (Suc i) self' rt'
        | (Some (Exception_raised e), self', rt') \<Rightarrow>
            notify_from callables old_state new_state (Suc i) self'
              (rt'\<lparr>stdout := stdout rt' @ [''Error in state listener: '' @ e]\<rparr>)
        | (Some (BaseException_raised e), self', rt') \<Rightarrow>
            Some (Some (BaseException_raised e), self', rt'))
     else Some (None, self, rt))"

definition notify_listeners :: "('lm, 'w) callables \<Rightarrow> 'lm OverlayStateMachine \<Rightarrow> OverlayState
    \<Rightarrow> OverlayState \<Rightarrow> 'w runtime \<Rightarrow> ('lm, 'w) outcome option" where
  "notify_listeners callables self old_state new_state rt =
     notify_from callables old_state new_state 0 self rt"

text \<open>
  The operations that notify take the behaviour of the callables; their value is \<open>None\<close>
  when the notification never ends.
\<close>

definition transition_to :: "('lm, 'w) callables \<Rightarrow> 'lm OverlayStateMachine \<Rightarrow> OverlayState
    \<Rightarrow> 'w runtime \<Rightarrow> ('lm, 'w) outcome option" where
  "transition_to callables self new_state rt =
    (if new_state \<noteq> state self then
       (let self1 = self\<lparr>previous_state := state self\<rparr>;
            self2 = self1\<lparr>state := new_state\<rparr>
        in notify_listeners callables self2 (previous_state self2) (state self2) rt)
     else Some (None, self, rt))"

definition set_idle :: "('lm, 'w) callables \<Rightarrow> 'lm OverlayStateMachine \<Rightarrow> 'w runtime
    \<Rightarrow> ('lm, 'w) outcome option" where
  "set_idle callables self rt = transition_to callables self IDLE rt"

definition set_listening :: "('lm, 'w) callables \<Rightarrow> 'lm OverlayStateMachine \<Rightarrow> pyfloat
    \<Rightarrow> 'w runtime \<Rightarrow> ('lm, 'w) outcome option" where
  "set_listening callables self level rt =
     transition_to callables (self\<lparr>audio_level := level\<rparr>) LISTENING rt"

definition update_audio_level :: "'lm OverlayStateMachine \<Rightarrow> pyfloat \<Rightarrow> 'lm OverlayStateMachine" where
  "update_audio_level self level =
     self\<lparr>audio_level := py_max (Fin 0.0) (py_min (Fin 1.0) level)\<rparr>"

definition set_processing :: "('lm, 'w) callables \<Rightarrow> 'lm OverlayStateMachine \<Rightarrow> 'w runtime
    \<Rightarrow> ('lm, 'w) outcome option" where
  "set_processing callables self rt = transition_to callables self PROCESSING rt"

definition set_action :: "('lm, 'w) callables \<Rightarrow> 'lm OverlayStateMachine \<Rightarrow> string
    \<Rightarrow> string option \<Rightarrow> 'w runtime \<Rightarrow> ('lm, 'w) outcome option" where
  "set_action callables self msg icn rt =
     transition_to callables (self\<lparr>action_data := \<lparr>message = msg, icon = icn\<rparr>\<rparr>) ACTION rt"

text \<open>\<open>landmarks or []\<close> is the empty list for \<open>None\<close> and for an empty list.\<close>

definition set_gesture :: "('lm, 'w) callables \<Rightarrow> 'lm OverlayStateMachine \<Rightarrow> 'lm list option
    \<Rightarrow> int option \<Rightarrow> string option \<Rightarrow> 'w runtime \<Rightarrow> ('lm, 'w) outcome option" where
  "set_gesture callables self landmarks finger hover rt =
     transition_to callables
       (self\<lparr>gesture_data :=
          \<lparr>hand_landmarks = (case landmarks of None \<Rightarrow> [] | Some l \<Rightarrow> if l = [] then [] else l),
           active_finger = finger, hover_key = hover\<rparr>\<rparr>)
       GESTURE rt"

definition update_gesture :: "'lm OverlayStateMachine \<Rightarrow> 'lm list option \<Rightarrow> int option
    \<Rightarrow> string option \<Rightarrow> 'lm OverlayStateMachine" where
  "update_gesture self landmarks finger hover =
    (let g1 = (case landmarks of None \<Rightarrow> gesture_data self
               | Some l \<Rightarrow> (gesture_data self)\<lparr>hand_landmarks := l\<rparr>);
         g2 = (case finger of None \<Rightarrow> g1 | Some f \<Rightarrow> g1\<lparr>active_finger := Some f\<rparr>);
         g3 = (case hover of None \<Rightarrow> g2 | Some k \<Rightarrow> g2\<lparr>hover_key := Some k\<rparr>)
     in self\<lparr>gesture_data := g3\<rparr>)"

definition set_keypad :: "('lm, 'w) callables \<Rightarrow> 'lm OverlayStateMachine \<Rightarrow> string option
    \<Rightarrow> 'w runtime \<Rightarrow> ('lm, 'w) outcome option" where
  "set_keypad callables self key rt =
     transition_to callables (self\<lparr>keypad_data := (keypad_data self)\<lparr>active_key := key\<rparr>\<rparr>)
       KEYPAD rt"

definition update_keypad :: "'lm OverlayStateMachine \<Rightarrow> string option \<Rightarrow> 'lm OverlayStateMachine" where
  "update_keypad self key = self\<lparr>keypad_data := (keypad_data self)\<lparr>active_key := key\<rparr>\<rparr>"

section \<open>Overlay window (overlay\_window.py, config.py)\<close>

datatype AccessibilityMode = NORMAL | MINIMAL | AUDIO_ONLY












section \<open>Voice input worker (voice\_input.py)\<close>

subsection \<open>Audio level\<close>

text \<open>
  A frame is a block of signed 16-bit samples. \<open>np.mean\<close> of an empty array is NaN (numpy
  warns and does not raise), and NaN goes through \<open>np.sqrt\<close> and the product.
\<close>

type_synonym frame = "16 word list"

definition np_mean :: "real list \<Rightarrow> pyfloat" where
  "np_mean xs = (if xs = [] then NaN else Fin (sum_list xs / real (length xs)))"

fun np_sqrt :: "pyfloat \<Rightarrow> pyfloat" where
  "np_sqrt (Fin x) = (if x < 0 then NaN else Fin (sqrt x))"
| "np_sqrt NaN = NaN"

fun py_times :: "pyfloat \<Rightarrow> pyfloat \<Rightarrow> pyfloat" where
  "py_times (Fin a) (Fin b) = Fin (a * b)"
| "py_times _ _ = NaN"

text \<open>
  \<open>floats = data.astype(np.float32) / 32768.0; rms = np.sqrt(np.mean(floats**2))\<close>
\<close>

definition frame_rms :: "frame \<Rightarrow> pyfloat" where
  "frame_rms data =
    (let floats = map (\<lambda>s. real_of_int (sint s) / 32768.0) data
     in np_sqrt (np_mean (map (\<lambda>x. x\<^sup>2) floats)))"

text \<open>The value that is emitted with \<open>audio_level_changed\<close>: \<open>float(rms * 10.0)\<close>.\<close>

definition emitted_level :: "frame \<Rightarrow> pyfloat" where
  "emitted_level data = py_times (frame_rms data) (Fin 10.0)"

subsection \<open>Speech processing\<close>

text \<open>
  The recogniser is the external service: given the audio bytes, the sample rate and the
  sample width it returns a text or raises \<open>UnknownValueError\<close>, \<open>RequestError\<close> or another
  exception. The worker's trace records the signals it emits and the calls it makes to the
  recogniser.
\<close>

datatype recognition = Recognized string | UnknownValueError | RequestError string
  | OtherException string

type_synonym recognizer = "8 word list \<Rightarrow> nat \<Rightarrow> nat \<Rightarrow> recognition"

datatype worker_event =
    audio_level_changed pyfloat
  | text_recognized string
  | error_occurred string
  | recognize_google "8 word list" nat nat

text \<open>\<open>tobytes\<close> of an int16 array: two bytes per sample, low byte first.\<close>

definition tobytes :: "16 word list \<Rightarrow> 8 word list" where
  "tobytes samples = concat (map (\<lambda>s. [ucast s, ucast (drop_bit 8 s)]) samples)"

definition process_speech :: "recognizer \<Rightarrow> nat \<Rightarrow> frame list \<Rightarrow> worker_event list" where
  "process_speech recognize sample_rate valid_frames =
    (if valid_frames = [] then []
     else
       (let audio_data = concat valid_frames;
            audio_bytes = tobytes audio_data
        in recognize_google audio_bytes sample_rate 2 #
           (case recognize audio_bytes sample_rate 2 of
              Recognized text \<Rightarrow> (if text \<noteq> [] then [text_recognized text] else [])
            | UnknownValueError \<Rightarrow> []
            | RequestError e \<Rightarrow> [error_occurred (''API Error: '' @ e)]
            | OtherException e \<Rightarrow> [error_occurred (''Recognition Error: '' @ e)])))"

subsection \<open>Voice activity detection\<close>

record 'f vad =
  speech_buffer :: "'f list"
  is_speaking :: bool
  silence_start_time :: "real option"

definition vad_init :: "'f vad" where
  "vad_init = \<lparr>speech_buffer = [], is_speaking = False, silence_start_time = None\<rparr>"

text \<open>
  The body of the capture loop after the level is emitted, for one frame \<open>data\<close> with level
  \<open>rms\<close>; \<open>now\<close> is what \<open>time.time()\<close> reads in this iteration. The second component is the
  buffer that is handed to \<open>_process_speech\<close>, if the iteration does so. The two VAD
  parameters are arguments here; the loop runs it with its constants (\<open>loop_iteration\<close>).
\<close>

definition vad_step :: "real \<Rightarrow> real \<Rightarrow> pyfloat \<Rightarrow> 'f \<Rightarrow> real \<Rightarrow> 'f vad
    \<Rightarrow> 'f vad \<times> 'f list option" where
  "vad_step silence_threshold silence_duration rms data now st =
    (if py_gt rms (Fin silence_threshold) then
       (st\<lparr>is_speaking := True, silence_start_time := None,
           speech_buffer := speech_buffer st @ [data]\<rparr>, None)
     else if is_speaking st then
       (let st1 = st\<lparr>speech_buffer := speech_buffer st @ [data]\<rparr> in
        case silence_start_time st1 of
          None \<Rightarrow> (st1\<lparr>silence_start_time := Some now\<rparr>, None)
        | Some t0 \<Rightarrow>
            if now - t0 > silence_duration then
              (st1\<lparr>speech_buffer := [], is_speaking := False, silence_start_time := None\<rparr>,
               Some (speech_buffer st1))
            else (st1, None))
     else (st, None))"

text \<open>
  The loop over the frames that arrive, each with its level and clock reading, collecting
  the buffers handed to \<open>_process_speech\<close> in order.
\<close>

fun run_vad :: "real \<Rightarrow> real \<Rightarrow> (pyfloat \<times> 'f \<times> real) list \<Rightarrow> 'f vad \<Rightarrow> 'f list list
    \<Rightarrow> 'f vad \<times> 'f list list" where
  "run_vad thr dur [] st out = (st, out)"
| "run_vad thr dur ((rms, data, now) # rest) st out =
    (case vad_step thr dur rms data now st of
       (st', None) \<Rightarrow> run_vad thr dur rest st' out
     | (st', Some utt) \<Rightarrow> run_vad thr dur rest st' (out @ [utt]))"

text \<open>The VAD parameters, local constants of \<open>_run_loop\<close>.\<close>

definition silence_threshold :: real where
  "silence_threshold = 0.01"

definition silence_duration :: real where
  "silence_duration = 3.0"

text \<open>
  One iteration of \<open>_run_loop\<close> on a frame taken from the queue, and the loop over the
  frames that arrive until the stop event is set.
\<close>

definition loop_iteration :: "recognizer \<Rightarrow> nat \<Rightarrow> frame \<times> real
    \<Rightarrow> frame vad \<times> worker_event list \<Rightarrow> frame vad \<times> worker_event list" where
  "loop_iteration recognize sample_rate inp acc =
    (let data = fst inp; now = snd inp; st = fst acc; tr = snd acc;
         rms = frame_rms data;
         tr1 = tr @ [audio_level_changed (py_times rms (Fin 10.0))]
     in case vad_step silence_threshold silence_duration rms data now st of
          (st', None) \<Rightarrow> (st', tr1)
        | (st', Some buf) \<Rightarrow> (st', tr1 @ process_speech recognize sample_rate buf))"

definition run_loop :: "recognizer \<Rightarrow> nat \<Rightarrow> (frame \<times> real) list
    \<Rightarrow> frame vad \<times> worker_event list" where
  "run_loop recognize sample_rate inputs =
     foldl (\<lambda>acc inp. loop_iteration recognize sample_rate inp acc) (vad_init, []) inputs"

section \<open>Notions used to state the properties\<close>

text \<open>
  The notification as the specification words it: every registered listener is called with
  the old and the new state, in registration order, each on the state machine and the
  runtime the one before it left; an \<open>Exception\<close> that a listener raises is printed
  (\<open>logged\<close>) and the next listener is called. \<open>called_in_order\<close> gives what each call
  returned or raised, and the state machine and the runtime after the last call.
  \<open>only_exceptions\<close> says that nothing outside \<open>Exception\<close> was raised.
\<close>

fun logged :: "py_raise option \<Rightarrow> 'w runtime \<Rightarrow> 'w runtime" where
  "logged (Some (Exception_raised e)) rt = rt\<lparr>stdout := stdout rt @ [''Error in state listener: '' @ e]\<rparr>"
| "logged _ rt = rt"

fun called_in_order :: "('lm, 'w) callables \<Rightarrow> callable_ref list \<Rightarrow> OverlayState \<Rightarrow> OverlayState
    \<Rightarrow> 'lm OverlayStateMachine \<Rightarrow> 'w runtime
    \<Rightarrow> py_raise option list \<times> 'lm OverlayStateMachine \<times> 'w runtime" where
  "called_in_order callables [] old_state new_state self rt = ([], self, rt)"
| "called_in_order callables (r # rs) old_state new_state self rt =
    (let c = callables r old_state new_state self rt;
         rest = called_in_order callables rs old_state new_state
                  (fst (snd c)) (logged (fst c) (snd (snd c)))
     in (fst c # fst rest, snd rest))"




text \<open>
  The level as the specification words it: the root mean square of the samples normalised
  to [-1, 1].
\<close>

definition normalized :: "frame \<Rightarrow> real list" where
  "normalized data = map (\<lambda>s. real_of_int (sint s) / 32768) data"

definition root_mean_square :: "real list \<Rightarrow> real" where
  "root_mean_square xs = sqrt (sum_list (map (\<lambda>x. x\<^sup>2) xs) / real (length xs))"

text \<open>The number of calls to the recogniser in a trace.\<close>

fun recognizer_calls :: "worker_event list \<Rightarrow> nat" where
  "recognizer_calls [] = 0"
| "recognizer_calls (recognize_google b r w # es) = Suc (recognizer_calls es)"
| "recognizer_calls (_ # es) = recognizer_calls es"

text \<open>
  An input of the detection loop: whether its level is above the threshold, its frame and
  the clock reading of its iteration.
\<close>

definition loud :: "real \<Rightarrow> pyfloat \<times> 'f \<times> real \<Rightarrow> bool" where
  "loud thr x = py_gt (fst x) (Fin thr)"

definition frame_of :: "pyfloat \<times> 'f \<times> real \<Rightarrow> 'f" where
  "frame_of x = fst (snd x)"

definition time_of :: "pyfloat \<times> 'f \<times> real \<Rightarrow> real" where
  "time_of x = snd (snd x)"

section \<open>Listeners and inputs used in the examples\<close>

text \<open>
  Callables of a program whose world is a call counter: reference 0 counts its calls,
  reference 1 raises an exception on every call, reference 2 is interrupted
  (\<open>KeyboardInterrupt\<close> is not an \<open>Exception\<close>), and every other reference is a listener that
  unregisters itself when it is called.
\<close>

definition counting_listener :: "(nat, nat) callable" where
  "counting_listener old_state new_state self rt = (None, self, rt\<lparr>world := Suc (world rt)\<rparr>)"

definition raising_listener :: "(nat, nat) callable" where
  "raising_listener old_state new_state self rt = (Some (Exception_raised ''boom''), self, rt)"

definition interrupted_listener :: "(nat, nat) callable" where
  "interrupted_listener old_state new_state self rt =
     (Some (BaseException_raised ''KeyboardInterrupt''), self, rt)"

definition unsubscribing_listener :: "callable_ref \<Rightarrow> (nat, nat) callable" where
  "unsubscribing_listener r old_state new_state self rt = (None, remove_listener self r, rt)"

definition example_callables :: "(nat, nat) callables" where
  "example_callables r =
     (if r = 0 then counting_listener else if r = 1 then raising_listener
      else if r = 2 then interrupted_listener else unsubscribing_listener r)"

text \<open>Callables that record their reference and their arguments in the world.\<close>

definition recording_callables ::
    "(nat, (callable_ref \<times> OverlayState \<times> OverlayState) list) callables" where
  "recording_callables r old_state new_state self rt =
     (None, self, rt\<lparr>world := world rt @ [(r, old_state, new_state)]\<rparr>)"

text \<open>
  A stream of numbered frames, \<open>n\<close> frames of level \<open>l\<close> starting with number \<open>i\<close>, frame
  \<open>k\<close> being processed at \<open>k\<close> times 16 ms.
\<close>

definition frames_at_16ms :: "real \<Rightarrow> nat \<Rightarrow> nat \<Rightarrow> (pyfloat \<times> nat \<times> real) list" where
  "frames_at_16ms l i n = map (\<lambda>k. (Fin l, k, real k * 0.016)) [i..<i + n]"

text \<open>
  A runtime with the counter at 0, and state machines with the counting listener
  registered: one brought into a given state, one showing an action message, one with
  gesture data set.
\<close>

definition example_rt :: "nat runtime" where
  "example_rt = \<lparr>world = 0, stdout = []\<rparr>"

definition counted_machine :: "nat OverlayStateMachine" where
  "counted_machine = add_listener OverlayStateMachine_init 0"

definition machine_in :: "OverlayState \<Rightarrow> nat OverlayStateMachine" where
  "machine_in s =
     (case transition_to example_callables counted_machine s example_rt of
        Some (r, m, rt) \<Rightarrow> m | None \<Rightarrow> counted_machine)"

definition machine_showing :: "string \<Rightarrow> nat OverlayStateMachine" where
  "machine_showing msg =
     (case set_action example_callables counted_machine msg None example_rt of
        Some (r, m, rt) \<Rightarrow> m | None \<Rightarrow> counted_machine)"

definition machine_with_gesture :: "nat OverlayStateMachine" where
  "machine_with_gesture = update_gesture counted_machine (Some [1, 2]) (Some 1) (Some ''a'')"







text \<open>A recogniser that understands nothing.\<close>

definition unrecognizable :: recognizer where
  "unrecognizable audio_bytes sample_rate sample_width = UnknownValueError"

section \<open>Properties of the state machine\<close>

subsection \<open>The notification loop\<close>

lemma notify_from_step:
  "i < length (listeners self) \<Longrightarrow>
   notify_from callables old new i self rt =
     (case callables (listeners self ! i) old new self rt of
        (None, self', rt') \<Rightarrow> notify_from callables old new (Suc i) self' rt'
      | (Some (Exception_raised e), self', rt') \<Rightarrow>
          notify_from callables old new (Suc i) self'
            (rt'\<lparr>stdout := stdout rt' @ [''Error in state listener: '' @ e]\<rparr>)
      | (Some (BaseException_raised e), self', rt') \<Rightarrow>
          Some (Some (BaseException_raised e), self', rt'))"
  by (subst notify_from.simps) simp

lemma notify_from_end:
  "\<not> i < length (listeners self) \<Longrightarrow> notify_from callables old new i self rt = Some (None, self, rt)"
  by (subst notify_from.simps) simp

lemmas notify_eval = notify_listeners_def notify_from_step notify_from_end transition_to_def






text \<open>Listeners that record their calls show the order and the arguments of the calls.\<close>

lemma recording_callables_called_in_order:
  "called_in_order recording_callables rs old new self rt =
     (map (\<lambda>r. None) rs, self, rt\<lparr>world := world rt @ map (\<lambda>r. (r, old, new)) rs\<rparr>)"
  by (induction rs arbitrary: rt) (simp_all add: Let_def recording_callables_def)

subsection \<open>Transitions to the current state\<close>

lemma machine_in_eq:
  "machine_in s = (if s = IDLE then counted_machine
                   else counted_machine\<lparr>previous_state := IDLE, state := s\<rparr>)"
  by (simp add: machine_in_def notify_eval counted_machine_def add_listener_def
      OverlayStateMachine_init_def example_callables_def counting_listener_def example_rt_def)

lemma machine_in_state: "state (machine_in s) = s"
  by (simp add: machine_in_eq counted_machine_def add_listener_def OverlayStateMachine_init_def)

text \<open>
  C9: calling \<open>set_idle()\<close> while the state machine is already in Idle returns normally and
  changes nothing: whatever the registered listeners are, none of them is called (the world
  they act on and the standard output are as before), and the current and the previous state
  are unchanged.
\<close>

theorem set_idle_when_idle_noop:
  "state self = IDLE \<Longrightarrow> set_idle callables self rt = Some (None, self, rt)"
  by (simp add: set_idle_def transition_to_def)

text \<open>With the counting listener registered, the counter is still 0 afterwards.\<close>

theorem set_idle_when_idle_noop_witness:
  "state counted_machine = IDLE \<and>
   set_idle example_callables counted_machine example_rt = Some (None, counted_machine, example_rt) \<and>
   world example_rt = 0"
proof -
  have idle: "state counted_machine = IDLE"
    by (simp add: counted_machine_def add_listener_def OverlayStateMachine_init_def)
  from set_idle_when_idle_noop [OF idle, of example_callables example_rt] idle show ?thesis
    by (simp add: example_rt_def)
qed

text \<open>
  C1 (as amended): a \<open>set_*\<close> operation called while its target state is already the current
  state returns normally without calling any listener and leaves the current and the previous
  state as they are; \<open>set_idle\<close> and \<open>set_processing\<close> change nothing at all, while
  \<open>set_listening\<close>, \<open>set_action\<close>, \<open>set_gesture\<close> and \<open>set_keypad\<close> still store their
  arguments in the payload of that state. The \<open>update_*\<close> operations store their arguments
  whatever the current state is.
\<close>

theorem set_same_state_no_notification:
  "(state self = IDLE \<longrightarrow> set_idle callables self rt = Some (None, self, rt)) \<and>
   (state self = PROCESSING \<longrightarrow> set_processing callables self rt = Some (None, self, rt)) \<and>
   (state self = LISTENING \<longrightarrow>
      set_listening callables self lvl rt = Some (None, self\<lparr>audio_level := lvl\<rparr>, rt)) \<and>
   (state self = ACTION \<longrightarrow>
      set_action callables self m i rt =
        Some (None, self\<lparr>action_data := \<lparr>message = m, icon = i\<rparr>\<rparr>, rt)) \<and>
   (state self = GESTURE \<longrightarrow>
      set_gesture callables self lm f h rt =
        Some (None,
         self\<lparr>gesture_data := \<lparr>hand_landmarks = (case lm of None \<Rightarrow> [] | Some l \<Rightarrow> l),
                                 active_finger = f, hover_key = h\<rparr>\<rparr>,
         rt)) \<and>
   (state self = KEYPAD \<longrightarrow>
      set_keypad callables self k rt =
        Some (None, self\<lparr>keypad_data := (keypad_data self)\<lparr>active_key := k\<rparr>\<rparr>, rt)) \<and>
   update_audio_level self (Fin x) = self\<lparr>audio_level := Fin (max 0 (min 1 x))\<rparr> \<and>
   update_keypad self k = self\<lparr>keypad_data := (keypad_data self)\<lparr>active_key := k\<rparr>\<rparr> \<and>
   update_gesture self (Some l) (Some n) (Some c) =
     self\<lparr>gesture_data :=
       \<lparr>hand_landmarks = l, active_finger = Some n, hover_key = Some c\<rparr>\<rparr>"
  by (auto simp add: set_idle_def set_processing_def set_listening_def set_action_def
      set_gesture_def set_keypad_def transition_to_def update_audio_level_def
      update_keypad_def update_gesture_def py_max_def py_min_def py_gt_def
      split: option.splits)

theorem set_same_state_no_notification_witness:
  "state (machine_in IDLE) = IDLE \<and>
   set_idle example_callables (machine_in IDLE) example_rt
     = Some (None, machine_in IDLE, example_rt) \<and>
   state (machine_in PROCESSING) = PROCESSING \<and>
   set_processing example_callables (machine_in PROCESSING) example_rt
     = Some (None, machine_in PROCESSING, example_rt) \<and>
   state (machine_in LISTENING) = LISTENING \<and>
   set_listening example_callables (machine_in LISTENING) (Fin 0.5) example_rt =
     Some (None, (machine_in LISTENING)\<lparr>audio_level := Fin 0.5\<rparr>, example_rt) \<and>
   state (machine_in ACTION) = ACTION \<and>
   set_action example_callables (machine_in ACTION) ''Opening'' None example_rt =
     Some (None, (machine_in ACTION)\<lparr>action_data := \<lparr>message = ''Opening'', icon = None\<rparr>\<rparr>,
      example_rt) \<and>
   state (machine_in GESTURE) = GESTURE \<and>
   set_gesture example_callables (machine_in GESTURE) (Some [7]) None None example_rt =
     Some (None,
      (machine_in GESTURE)\<lparr>gesture_data :=
         \<lparr>hand_landmarks = [7], active_finger = None, hover_key = None\<rparr>\<rparr>,
      example_rt) \<and>
   state (machine_in KEYPAD) = KEYPAD \<and>
   set_keypad example_callables (machine_in KEYPAD) (Some ''a'') example_rt =
     Some (None,
      (machine_in KEYPAD)\<lparr>keypad_data := (keypad_data (machine_in KEYPAD))\<lparr>active_key := Some ''a''\<rparr>\<rparr>,
      example_rt)"
  using set_same_state_no_notification [of "machine_in IDLE" example_callables example_rt]
    set_same_state_no_notification [of "machine_in PROCESSING" example_callables example_rt]
    set_same_state_no_notification [of "machine_in LISTENING" example_callables example_rt "Fin 0.5"]
    set_same_state_no_notification
      [of "machine_in ACTION" example_callables example_rt _ "''Opening''" None]
    set_same_state_no_notification
      [of "machine_in GESTURE" example_callables example_rt _ _ _ "Some [7]" None None]
    set_same_state_no_notification
      [of "machine_in KEYPAD" example_callables example_rt _ _ _ _ _ _ "Some ''a''"]
  by (simp add: machine_in_state)

text \<open>
  The claim as stated fails: in Action, \<open>set_action\<close> with another message replaces the
  payload record (and calls no listener).
\<close>

theorem set_action_in_action_replaces_payload:
  "state (machine_showing ''first'') = ACTION \<and>
   message (action_data (machine_showing ''first'')) = ''first'' \<and>
   set_action example_callables (machine_showing ''first'') ''second'' None example_rt =
     Some (None, (machine_showing ''first'')\<lparr>action_data := \<lparr>message = ''second'', icon = None\<rparr>\<rparr>,
           example_rt) \<and>
   \<lparr>message = ''second'', icon = None\<rparr> \<noteq> action_data (machine_showing ''first'')"
  by (simp add: machine_showing_def counted_machine_def set_action_def notify_eval
      add_listener_def OverlayStateMachine_init_def example_callables_def counting_listener_def
      example_rt_def)

subsection \<open>Payload records\<close>

text \<open>
  C2: the claim says that a freshly constructed \<open>KeypadData\<close>, and the state machine's
  \<open>keypad_data\<close>, has the five rows of the laptop layout. Evaluated on the code, the default
  factory gives two rows, the second of them starting \<open>Tab\<close>, \<open>m\<close>, \<open>w\<close>; this list is not
  empty, so \<open>__post_init__\<close> does not install the five rows of \<open>_init_layout\<close>.
\<close>

theorem KeypadData_default_has_two_rows:
  "length (rows (KeypadData_new None None)) = 2 \<and>
   map code (rows (KeypadData_new None None) ! 1) =
     [''tab'', ''m'', ''w'', ''e'', ''r'', ''t'', ''y'', ''u'', ''i'', ''o'', ''p'', ''['', '']'', [CHR 0x5C]] \<and>
   length (rows (keypad_data (OverlayStateMachine_init :: nat OverlayStateMachine))) = 2 \<and>
   length (rows (KeypadData_new None (Some []))) = 5"
  by (simp add: OverlayStateMachine_init_def KeypadData_new_def post_init_def
      rows_default_factory_def init_layout_def char_keys_def KeyData_new_def KeyData_new4_def)

text \<open>The operations that update a payload in place leave the key layout as it is.\<close>

lemma rows_never_mutated:
  "rows (keypad_data (update_keypad self k)) = rows (keypad_data self)"
  "rows (keypad_data (update_gesture self lm f h)) = rows (keypad_data self)"
  "rows (keypad_data (update_audio_level self lvl)) = rows (keypad_data self)"
  by (simp_all add: update_keypad_def update_gesture_def update_audio_level_def Let_def
      split: option.splits)

text \<open>
  C4: the claim says that the stored audio level lies in [0, 1] after every public operation.
  \<open>update_audio_level\<close> clamps its argument, in every state; \<open>set_listening\<close> stores its
  argument as it is, so \<open>set_listening(5.0)\<close> on a new state machine leaves the level 5.
\<close>

lemma update_audio_level_clamps:
  "audio_level (update_audio_level self (Fin x)) = Fin (max 0 (min 1 x))"
  by (auto simp add: update_audio_level_def py_max_def py_min_def py_gt_def)

theorem set_listening_stores_unclamped:
  "set_listening example_callables counted_machine (Fin 5) example_rt =
     Some (None, counted_machine\<lparr>audio_level := Fin 5, previous_state := IDLE, state := LISTENING\<rparr>,
           example_rt\<lparr>world := 1\<rparr>) \<and>
   \<not> (5 \<le> (1::real))"
  by (simp add: set_listening_def notify_eval counted_machine_def add_listener_def
      OverlayStateMachine_init_def example_callables_def counting_listener_def example_rt_def)

text \<open>
  C10 (as amended): \<open>update_gesture\<close> leaves the current and the previous state unchanged;
  every argument passed as \<open>None\<close> leaves its field of \<open>GestureData\<close> at the prior value, so
  \<open>active_finger\<close> and \<open>hover_key\<close> cannot go back to \<open>None\<close> through it; a list that is
  passed, the empty list too, becomes \<open>hand_landmarks\<close>.
\<close>

theorem update_gesture_none_keeps_fields:
  "state (update_gesture self lm f h) = state self \<and>
   previous_state (update_gesture self lm f h) = previous_state self \<and>
   (lm = None \<longrightarrow> hand_landmarks (gesture_data (update_gesture self lm f h))
      = hand_landmarks (gesture_data self)) \<and>
   (f = None \<longrightarrow> active_finger (gesture_data (update_gesture self lm f h))
      = active_finger (gesture_data self)) \<and>
   (h = None \<longrightarrow> hover_key (gesture_data (update_gesture self lm f h))
      = hover_key (gesture_data self)) \<and>
   (active_finger (gesture_data self) \<noteq> None \<longrightarrow>
      active_finger (gesture_data (update_gesture self lm f h)) \<noteq> None) \<and>
   (hover_key (gesture_data self) \<noteq> None \<longrightarrow>
      hover_key (gesture_data (update_gesture self lm f h)) \<noteq> None) \<and>
   hand_landmarks (gesture_data (update_gesture self (Some l) f h)) = l"
  by (auto simp add: update_gesture_def Let_def split: option.splits)

theorem update_gesture_none_keeps_fields_witness:
  "active_finger (gesture_data machine_with_gesture) \<noteq> None \<and>
   hover_key (gesture_data machine_with_gesture) \<noteq> None \<and>
   hand_landmarks (gesture_data (update_gesture machine_with_gesture None None None)) = [1, 2] \<and>
   active_finger (gesture_data (update_gesture machine_with_gesture None None None)) = Some 1 \<and>
   hover_key (gesture_data (update_gesture machine_with_gesture None None None)) = Some ''a'' \<and>
   state (update_gesture machine_with_gesture None None None) = IDLE"
proof -
  have g: "gesture_data machine_with_gesture =
      \<lparr>hand_landmarks = [1, 2], active_finger = Some 1, hover_key = Some ''a''\<rparr>"
    and s: "state machine_with_gesture = IDLE"
    by (simp_all add: machine_with_gesture_def update_gesture_def counted_machine_def
        add_listener_def OverlayStateMachine_init_def GestureData_new_def)
  from update_gesture_none_keeps_fields [of machine_with_gesture None None None] g s
  show ?thesis by simp
qed

text \<open>
  The claim as stated fails: passing the empty list empties \<open>hand_landmarks\<close> after it was
  set.
\<close>

theorem update_gesture_empties_landmarks:
  "hand_landmarks (gesture_data machine_with_gesture) = [1, 2] \<and>
   hand_landmarks (gesture_data (update_gesture machine_with_gesture (Some []) None None)) = []"
  by (simp add: machine_with_gesture_def update_gesture_def counted_machine_def
      add_listener_def OverlayStateMachine_init_def GestureData_new_def)

subsection \<open>Notification\<close>





subsection \<open>Action auto-hide\<close>








section \<open>Properties of the voice input worker\<close>

subsection \<open>Speech processing\<close>

text \<open>
  C6 (as amended): \<open>_process_speech\<close> returns at once, without calling the recogniser, when
  it is handed the empty frame list; every non-empty frame list leads to exactly one call of
  the recogniser, on the bytes of all its frames, with no other validation (frames without
  samples are passed on). The capture loop never hands over an empty list.
\<close>

theorem process_speech_attempts:
  "process_speech recognize sample_rate [] = [] \<and>
   (valid_frames \<noteq> [] \<longrightarrow>
      hd (process_speech recognize sample_rate valid_frames)
        = recognize_google (tobytes (concat valid_frames)) sample_rate 2 \<and>
      recognizer_calls (process_speech recognize sample_rate valid_frames) = 1) \<and>
   (vad_step thr dur rms data now st = (st', Some buf) \<longrightarrow> buf \<noteq> [])"
  by (auto simp add: process_speech_def Let_def vad_step_def
      split: recognition.splits if_splits option.splits)

theorem process_speech_attempts_witness:
  "[[1, 2]] \<noteq> ([] :: frame list) \<and>
   recognizer_calls (process_speech unrecognizable 16000 [[1, 2]]) = 1 \<and>
   hd (process_speech unrecognizable 16000 [[1, 2]]) = recognize_google [1, 0, 2, 0] 16000 2 \<and>
   process_speech unrecognizable 16000 [[]] = [recognize_google [] 16000 2]"
  using process_speech_attempts [of unrecognizable 16000 "[[1, 2]]"]
  by (simp add: process_speech_def unrecognizable_def tobytes_def)

text \<open>The claim as stated fails: for the empty list no transcription attempt is made.\<close>

theorem process_speech_empty_no_attempt:
  "recognizer_calls (process_speech unrecognizable 16000 []) = 0"
  by (simp add: process_speech_def)

subsection \<open>Audio level\<close>

lemma normalized_range: "x \<in> set (normalized data) \<Longrightarrow> - 1 \<le> x \<and> x < 1"
proof -
  assume "x \<in> set (normalized data)"
  then obtain s :: "16 word" where x: "x = real_of_int (sint s) / 32768"
    by (auto simp add: normalized_def)
  have "sint s < 2 ^ (LENGTH(16) - 1)" by (rule sint_lt)
  moreover have "- (2 ^ (LENGTH(16) - 1)) \<le> sint s" by (rule sint_ge)
  ultimately have "- 32768 \<le> sint s" "sint s < 32768" by simp_all
  then have "- 32768 \<le> real_of_int (sint s)" "real_of_int (sint s) < 32768"
    by linarith+
  then show ?thesis unfolding x by (simp del: of_int_sint)
qed

lemma sum_squares_le_length:
  "(\<And>x. x \<in> set xs \<Longrightarrow> - 1 \<le> x \<and> x < 1) \<Longrightarrow>
   sum_list (map (\<lambda>x. x\<^sup>2) xs) \<le> real (length xs)"
proof (induction xs)
  case Nil
  then show ?case by simp
next
  case (Cons a xs)
  have "- 1 \<le> a \<and> a < 1" using Cons.prems by simp
  then have "\<bar>a\<bar> \<le> 1" by linarith
  then have "a\<^sup>2 \<le> 1" by (simp add: abs_square_le_1)
  moreover have "sum_list (map (\<lambda>x. x\<^sup>2) xs) \<le> real (length xs)"
    using Cons by simp
  ultimately show ?case by simp
qed

lemma rms_range:
  assumes "data \<noteq> []"
  shows "0 \<le> root_mean_square (normalized data)" "root_mean_square (normalized data) \<le> 1"
proof -
  let ?xs = "normalized data"
  have len: "0 < real (length ?xs)" using assms by (simp add: normalized_def)
  have nn: "0 \<le> sum_list (map (\<lambda>x. x\<^sup>2) ?xs)" by (rule sum_list_nonneg) auto
  show "0 \<le> root_mean_square ?xs" using nn by (simp add: root_mean_square_def)
  have "sum_list (map (\<lambda>x. x\<^sup>2) ?xs) \<le> real (length ?xs)"
    by (rule sum_squares_le_length) (rule normalized_range)
  then have "sum_list (map (\<lambda>x. x\<^sup>2) ?xs) / real (length ?xs) \<le> 1" using len by simp
  then show "root_mean_square ?xs \<le> 1" by (simp add: root_mean_square_def)
qed

lemma emitted_level_eq:
  assumes "data \<noteq> []"
  shows "emitted_level data = Fin (10 * root_mean_square (normalized data))"
proof -
  have nn: "0 \<le> sum_list (map (\<lambda>x. x\<^sup>2) (normalized data))" by (rule sum_list_nonneg) auto
  then have "\<not> sum_list (map (\<lambda>x. x\<^sup>2) (normalized data)) / real (length data) < 0"
    by (simp add: not_less)
  then show ?thesis using assms
    by (simp add: emitted_level_def frame_rms_def np_mean_def root_mean_square_def
        normalized_def comp_def)
qed

text \<open>
  C5 (as amended), in exact real arithmetic: for every non-empty frame the level emitted
  with \<open>audio_level_changed\<close> is 10 times the root mean square of the samples normalised to
  [-1, 1]; the root mean square lies in [0, 1], so the emitted level lies in [0, 10] and is
  not clamped. The clamp to [0, 1] is applied when \<open>update_audio_level\<close> stores the level.
\<close>

theorem emitted_level_is_gain_times_rms:
  assumes "data \<noteq> []"
  shows "emitted_level data = Fin (10 * root_mean_square (normalized data)) \<and>
         0 \<le> root_mean_square (normalized data) \<and> root_mean_square (normalized data) \<le> 1 \<and>
         audio_level (update_audio_level self (emitted_level data))
           = Fin (min 1 (10 * root_mean_square (normalized data)))"
  using emitted_level_eq [OF assms] rms_range [OF assms]
  by (auto simp add: update_audio_level_def py_max_def py_min_def py_gt_def min_def)

theorem emitted_level_is_gain_times_rms_witness:
  "[16384] \<noteq> ([] :: frame) \<and> root_mean_square (normalized [16384]) = 1 / 2 \<and>
   emitted_level [16384] = Fin 5 \<and>
   audio_level (update_audio_level counted_machine (emitted_level [16384])) = Fin 1"
proof -
  have r: "root_mean_square (normalized [16384]) = 1 / 2"
    by (simp add: root_mean_square_def normalized_def real_sqrt_divide)
  have n: "[16384] \<noteq> ([] :: frame)" by simp
  note t = emitted_level_is_gain_times_rms [OF n, of counted_machine, unfolded r]
  have e: "emitted_level [16384] = Fin 5" using t by simp
  have a: "audio_level (update_audio_level counted_machine (emitted_level [16384])) = Fin 1"
    using t [THEN conjunct2, THEN conjunct2, THEN conjunct2] by simp
  from n r e a show ?thesis by blast
qed

text \<open>
  The claim as stated fails: a one-sample frame of value 16384 (one half after
  normalisation) is emitted with level 5, above 1; and the empty frame yields NaN, not 0.
\<close>

theorem emitted_level_not_clamped:
  "emitted_level [16384] = Fin 5 \<and> \<not> (5 \<le> (1::real)) \<and> emitted_level [] = NaN"
  by (simp add: emitted_level_def frame_rms_def np_mean_def real_sqrt_divide)

subsection \<open>Voice activity detection\<close>

lemma frame_simps [simp]:
  "loud thr (r, d, t) = py_gt r (Fin thr)" "frame_of (r, d, t) = d" "time_of (r, d, t) = t"
  by (simp_all add: loud_def frame_of_def time_of_def)

lemma run_vad_append:
  "run_vad thr dur (xs @ ys) st out =
     run_vad thr dur ys (fst (run_vad thr dur xs st out)) (snd (run_vad thr dur xs st out))"
proof (induction xs arbitrary: st out)
  case Nil
  then show ?case by simp
next
  case (Cons x xs)
  obtain r d t where x: "x = (r, d, t)" by (cases x)
  obtain s u where v: "vad_step thr dur r d t st = (s, u)" by (cases "vad_step thr dur r d t st")
  show ?case using Cons.IH x v by (cases u) simp_all
qed

text \<open>While Silent, frames at or below the threshold are discarded.\<close>

lemma run_vad_silent_discarded:
  "\<not> is_speaking st \<Longrightarrow> \<forall>x \<in> set pre. \<not> loud thr x \<Longrightarrow>
   run_vad thr dur (pre @ rest) st out = run_vad thr dur rest st out"
proof (induction pre)
  case Nil
  then show ?case by simp
next
  case (Cons x pre)
  obtain r d t where x: "x = (r, d, t)" by (cases x)
  with Cons show ?case by (simp add: vad_step_def)
qed

lemma run_vad_out_grows: "length out \<le> length (snd (run_vad thr dur xs st out))"
proof (induction xs arbitrary: st out)
  case Nil
  then show ?case by simp
next
  case (Cons x xs)
  obtain r d t where x: "x = (r, d, t)" by (cases x)
  obtain s u where v: "vad_step thr dur r d t st = (s, u)" by (cases "vad_step thr dur r d t st")
  show ?case
  proof (cases u)
    case None
    with x v Cons.IH [of out s] show ?thesis by simp
  next
    case (Some utt)
    with x v Cons.IH [of "out @ [utt]" s] show ?thesis by simp
  qed
qed

text \<open>
  While Speaking and as long as nothing is handed over, every frame is appended to the
  buffer: in a Speaking state reached from speech onset the buffer holds every frame since
  the onset.
\<close>

lemma run_vad_speaking_collects:
  "is_speaking st \<Longrightarrow> run_vad thr dur xs st out = (st', out) \<Longrightarrow>
   is_speaking st' \<and> speech_buffer st' = speech_buffer st @ map frame_of xs"
proof (induction xs arbitrary: st)
  case Nil
  then show ?case by simp
next
  case (Cons x xs)
  obtain r d t where x: "x = (r, d, t)" by (cases x)
  obtain s u where v: "vad_step thr dur r d t st = (s, u)" by (cases "vad_step thr dur r d t st")
  show ?case
  proof (cases u)
    case None
    with v Cons.prems(1) have s: "is_speaking s" "speech_buffer s = speech_buffer st @ [d]"
      by (auto simp add: vad_step_def Let_def split: if_splits option.splits)
    from Cons.prems(2) x v None have "run_vad thr dur xs s out = (st', out)" by simp
    from Cons.IH [OF s(1) this] s(2) x show ?thesis by simp
  next
    case (Some utt)
    with Cons.prems(2) x v have "run_vad thr dur xs s (out @ [utt]) = (st', out)" by simp
    then have "snd (run_vad thr dur xs s (out @ [utt])) = out" by simp
    with run_vad_out_grows [of "out @ [utt]" thr dur xs s] show ?thesis by simp
  qed
qed

lemma run_vad_speech:
  "\<forall>x \<in> set sp. loud thr x \<Longrightarrow> sp \<noteq> [] \<Longrightarrow>
   run_vad thr dur (sp @ rest) st out =
   run_vad thr dur rest
     (st\<lparr>is_speaking := True, silence_start_time := None,
         speech_buffer := speech_buffer st @ map frame_of sp\<rparr>) out"
proof (induction sp arbitrary: st)
  case Nil
  then show ?case by simp
next
  case (Cons x sp)
  obtain r d t where x: "x = (r, d, t)" by (cases x)
  show ?case
  proof (cases "sp = []")
    case True
    with Cons.prems x show ?thesis by (simp add: vad_step_def)
  next
    case False
    with Cons x show ?thesis by (simp add: vad_step_def)
  qed
qed

text \<open>
  While Speaking with the silence timer started at \<open>t0\<close>, silent frames whose clock reading
  is at most \<open>dur\<close> after \<open>t0\<close> are buffered and nothing is handed over.
\<close>

lemma run_vad_silence_within:
  "\<forall>x \<in> set qs. \<not> loud thr x \<and> time_of x - t0 \<le> dur \<Longrightarrow>
   is_speaking st \<Longrightarrow> silence_start_time st = Some t0 \<Longrightarrow>
   run_vad thr dur (qs @ rest) st out =
   run_vad thr dur rest (st\<lparr>speech_buffer := speech_buffer st @ map frame_of qs\<rparr>) out"
proof (induction qs arbitrary: st)
  case Nil
  then show ?case by simp
next
  case (Cons x qs)
  obtain r d t where x: "x = (r, d, t)" by (cases x)
  let ?st = "st\<lparr>speech_buffer := speech_buffer st @ [d]\<rparr>"
  from Cons.prems x have step: "vad_step thr dur r d t st = (?st, None)"
    by (simp add: vad_step_def)
  have "run_vad thr dur (qs @ rest) ?st out =
     run_vad thr dur rest (?st\<lparr>speech_buffer := speech_buffer ?st @ map frame_of qs\<rparr>) out"
    using Cons.prems by (intro Cons.IH) simp_all
  with step x show ?case by simp
qed

lemma run_vad_no_emission:
  assumes "sp \<noteq> []" and "\<forall>x \<in> set sp. loud thr x"
    and "\<not> loud thr q" and "\<forall>x \<in> set qs. \<not> loud thr x \<and> time_of x - time_of q \<le> dur"
  shows "run_vad thr dur (sp @ q # qs) vad_init [] =
           (\<lparr>speech_buffer = map frame_of (sp @ q # qs), is_speaking = True,
             silence_start_time = Some (time_of q)\<rparr>, [])"
proof -
  let ?s1 = "\<lparr>speech_buffer = map frame_of sp, is_speaking = True,
              silence_start_time = None\<rparr>"
  let ?s2 = "\<lparr>speech_buffer = map frame_of sp @ [frame_of q], is_speaking = True,
              silence_start_time = Some (time_of q)\<rparr>"
  have "run_vad thr dur (sp @ q # qs) vad_init [] = run_vad thr dur (q # qs) ?s1 []"
    using run_vad_speech [OF assms(2) assms(1), where rest = "q # qs" and st = vad_init]
    by (simp add: vad_init_def)
  also have "\<dots> = run_vad thr dur (qs @ []) ?s2 []"
    using assms(3) by (cases q) (simp add: vad_step_def)
  also have "\<dots> = (\<lparr>speech_buffer = map frame_of (sp @ q # qs), is_speaking = True,
             silence_start_time = Some (time_of q)\<rparr>, [])"
    using run_vad_silence_within [OF assms(4), where st = ?s2 and rest = "[]"] by simp
  finally show ?thesis .
qed

lemma timer_running:
  assumes "is_speaking st" "silence_start_time st = Some t0"
    and "\<forall>x \<in> set qs. \<not> loud thr x \<and> time_of x - t0 \<le> dur"
    and "\<not> loud thr z" "time_of z - t0 > dur"
  shows "run_vad thr dur (qs @ [z]) st out =
           (vad_init, out @ [speech_buffer st @ map frame_of (qs @ [z])])"
proof -
  have "run_vad thr dur (qs @ [z]) st out =
      run_vad thr dur [z] (st\<lparr>speech_buffer := speech_buffer st @ map frame_of qs\<rparr>) out"
    by (rule run_vad_silence_within [OF assms(3,1,2)])
  also have "\<dots> = (vad_init, out @ [speech_buffer st @ map frame_of (qs @ [z])])"
    using assms(1,2,4,5) by (cases z) (simp add: vad_step_def vad_init_def)
  finally show ?thesis .
qed

lemma timer_unset:
  assumes "is_speaking st" "silence_start_time st = None"
    and "\<not> loud thr q" "\<forall>x \<in> set qs. \<not> loud thr x \<and> time_of x - time_of q \<le> dur"
    and "\<not> loud thr z" "time_of z - time_of q > dur"
  shows "run_vad thr dur (q # qs @ [z]) st out =
           (vad_init, out @ [speech_buffer st @ map frame_of (q # qs @ [z])])"
proof -
  let ?s = "st\<lparr>speech_buffer := speech_buffer st @ [frame_of q],
               silence_start_time := Some (time_of q)\<rparr>"
  have "run_vad thr dur (q # qs @ [z]) st out = run_vad thr dur (qs @ [z]) ?s out"
    using assms(1,2,3) by (cases q) (simp add: vad_step_def)
  also have "\<dots> = (vad_init, out @ [speech_buffer ?s @ map frame_of (qs @ [z])])"
    using assms by (intro timer_running) simp_all
  finally show ?thesis by simp
qed

text \<open>
  The detection state of \<open>_run_loop\<close> is that of \<open>run_vad\<close> with the loop's constants on the
  frames with their levels.
\<close>

lemma run_loop_is_run_vad:
  "fst (foldl (\<lambda>acc inp. loop_iteration recognize sample_rate inp acc) (st, tr) inputs) =
   fst (run_vad silence_threshold silence_duration
          (map (\<lambda>inp. (frame_rms (fst inp), fst inp, snd inp)) inputs) st out)"
proof (induction inputs arbitrary: st tr out)
  case Nil
  then show ?case by simp
next
  case (Cons inp inputs)
  obtain d t where inp: "inp = (d, t)" by (cases inp)
  obtain st' u where
    v: "vad_step silence_threshold silence_duration (frame_rms d) d t st = (st', u)"
    by (cases "vad_step silence_threshold silence_duration (frame_rms d) d t st")
  show ?case
  proof (cases u)
    case None
    with v inp Cons.IH [of st' _ out] show ?thesis
      by (simp add: loop_iteration_def Let_def)
  next
    case (Some buf)
    with v inp Cons.IH [of st' _ "out @ [buf]"] show ?thesis
      by (simp add: loop_iteration_def Let_def)
  qed
qed

lemma run_loop_state:
  "fst (run_loop recognize sample_rate inputs) =
   fst (run_vad silence_threshold silence_duration
          (map (\<lambda>inp. (frame_rms (fst inp), fst inp, snd inp)) inputs) vad_init [])"
  unfolding run_loop_def by (rule run_loop_is_run_vad)

lemma frames_map: "map frame_of (frames_at_16ms l i n) = [i..<i + n]"
  by (simp add: frames_at_16ms_def frame_of_def comp_def map_idI)

lemma frames_split_first:
  "frames_at_16ms l i (Suc n) = (Fin l, i, real i * 0.016) # frames_at_16ms l (Suc i) n"
  by (simp add: frames_at_16ms_def upt_rec [of i] del: upt_Suc)

lemma frames_split_last:
  "frames_at_16ms l i (Suc n) = frames_at_16ms l i n @ [(Fin l, i + n, real (i + n) * 0.016)]"
  by (simp add: frames_at_16ms_def)

lemma step_bound:
  fixes k i n :: nat and t0 dur :: real
  assumes "k < i + n" "real (i + n) * 0.016 - t0 \<le> dur + 0.016"
  shows "real k * 0.016 - t0 \<le> dur"
proof -
  from assms(1) have "real k + 1 \<le> real (i + n)" by linarith
  then have "(real k + 1) * 0.016 \<le> real (i + n) * 0.016" by (rule mult_right_mono) simp
  then have "real k * 0.016 + 0.016 \<le> real (i + n) * 0.016" by (simp add: algebra_simps)
  with assms(2) show ?thesis by linarith
qed

lemma frames_silent_within:
  assumes "l \<le> thr" and "real (i + n) * 0.016 - t0 \<le> dur + 0.016"
  shows "\<forall>x \<in> set (frames_at_16ms l i n). \<not> loud thr x \<and> time_of x - t0 \<le> dur"
proof
  fix x assume "x \<in> set (frames_at_16ms l i n)"
  then obtain k where k: "x = (Fin l, k, real k * 0.016)" "k < i + n"
    by (auto simp add: frames_at_16ms_def)
  have "\<not> loud thr x" using assms(1) k(1) by (simp add: py_gt_def)
  moreover have "time_of x - t0 \<le> dur"
    unfolding k(1) frame_simps by (rule step_bound [OF k(2) assms(2)])
  ultimately show "\<not> loud thr x \<and> time_of x - t0 \<le> dur" ..
qed

lemma frames_loud: "thr < l \<Longrightarrow> \<forall>x \<in> set (frames_at_16ms l i n). loud thr x"
  by (auto simp add: frames_at_16ms_def py_gt_def)

text \<open>
  C3 (as amended): for every threshold and duration, those of the loop among them, let the
  frame \<open>q\<close> be at or below the threshold, the further frames \<open>qs\<close>
  be at or below it and read at most \<open>trailing_silence_duration\<close> after \<open>q\<close>, and the frame
  \<open>z\<close> be at or below it and read strictly more than \<open>trailing_silence_duration\<close> after
  \<open>q\<close>. In every Speaking state whose silence timer is not running, whatever is buffered,
  the timer starts at the clock reading of \<open>q\<close> and exactly one utterance is handed over,
  at \<open>z\<close>: the buffer extended by \<open>q\<close>, \<open>qs\<close> and \<open>z\<close>; the buffer is then empty and the
  segmenter Silent, the timer cleared. The same holds from \<open>qs\<close> on when the timer is already
  running since \<open>q\<close>. Starting Silent, after any silent frames, a frame above the threshold
  and any frames during which nothing is handed over (pauses and resumed speech), the
  utterance handed over at \<open>z\<close> is every frame from the speech onset through \<open>z\<close>.
\<close>

theorem utterance_emitted_after_trailing_silence:
  assumes "\<not> loud thr q" and "\<forall>x \<in> set qs. \<not> loud thr x \<and> time_of x - time_of q \<le> dur"
    and "\<not> loud thr z" and "time_of z - time_of q > dur"
  shows "(is_speaking st \<and> silence_start_time st = None \<longrightarrow>
            run_vad thr dur (q # qs @ [z]) st out =
              (vad_init, out @ [speech_buffer st @ map frame_of (q # qs @ [z])])) \<and>
         (is_speaking st \<and> silence_start_time st = Some (time_of q) \<longrightarrow>
            run_vad thr dur (qs @ [z]) st out =
              (vad_init, out @ [speech_buffer st @ map frame_of (qs @ [z])])) \<and>
         (\<not> is_speaking s0 \<and> speech_buffer s0 = [] \<and> (\<forall>x \<in> set pre. \<not> loud thr x) \<and>
          loud thr onset \<and> run_vad thr dur (onset # mid) s0 out = (st, out) \<and>
          silence_start_time st = None \<longrightarrow>
            run_vad thr dur (pre @ onset # mid @ q # qs @ [z]) s0 out =
              (vad_init, out @ [map frame_of (onset # mid @ q # qs @ [z])]))"
proof (intro conjI impI)
  assume "is_speaking st \<and> silence_start_time st = None"
  then show "run_vad thr dur (q # qs @ [z]) st out =
      (vad_init, out @ [speech_buffer st @ map frame_of (q # qs @ [z])])"
    using assms by (intro timer_unset) simp_all
next
  assume "is_speaking st \<and> silence_start_time st = Some (time_of q)"
  then show "run_vad thr dur (qs @ [z]) st out =
      (vad_init, out @ [speech_buffer st @ map frame_of (qs @ [z])])"
    using assms by (intro timer_running) simp_all
next
  assume a: "\<not> is_speaking s0 \<and> speech_buffer s0 = [] \<and> (\<forall>x \<in> set pre. \<not> loud thr x) \<and>
          loud thr onset \<and> run_vad thr dur (onset # mid) s0 out = (st, out) \<and>
          silence_start_time st = None"
  let ?s1 = "s0\<lparr>is_speaking := True, silence_start_time := None,
                speech_buffer := [frame_of onset]\<rparr>"
  have first: "run_vad thr dur (onset # mid) s0 out = run_vad thr dur mid ?s1 out"
    using a by (cases onset) (simp add: vad_step_def)
  with a have "run_vad thr dur mid ?s1 out = (st, out)" by simp
  from run_vad_speaking_collects [OF _ this]
  have st: "is_speaking st" "speech_buffer st = map frame_of (onset # mid)" by simp_all
  have "run_vad thr dur (pre @ onset # mid @ q # qs @ [z]) s0 out =
      run_vad thr dur ((onset # mid) @ q # qs @ [z]) s0 out"
    using a run_vad_silent_discarded [of s0 pre thr dur "onset # mid @ q # qs @ [z]" out] by simp
  also have "\<dots> = run_vad thr dur (q # qs @ [z]) st out"
    using a by (simp only: run_vad_append) simp
  also have "\<dots> = (vad_init, out @ [speech_buffer st @ map frame_of (q # qs @ [z])])"
    using st a assms by (intro timer_unset) simp_all
  finally show "run_vad thr dur (pre @ onset # mid @ q # qs @ [z]) s0 out =
      (vad_init, out @ [map frame_of (onset # mid @ q # qs @ [z])])"
    using st by simp
qed

text \<open>
  With the loop's constants (threshold 0.01, trailing silence 3.0 s) at 16 ms per frame:
  five frames of level 0.05 and 189 frames of level 0.001 give one utterance of all 194
  frames, the 189th silent frame being read 3.008 s after the first; after two silent
  frames, speech with a pause of three frames in it gives one utterance of the frames 2 to
  200; and the same 189 and 188 silent frames give the utterance from the Speaking state
  with five frames buffered and from the one with six frames buffered and the timer running.
\<close>

theorem utterance_emitted_after_trailing_silence_witness:
  "run_vad silence_threshold silence_duration
     (frames_at_16ms 0.05 0 5 @ frames_at_16ms 0.001 5 189) vad_init []
     = (vad_init, [[0..<194]]) \<and>
   run_vad silence_threshold silence_duration
     (frames_at_16ms 0.001 0 2 @ frames_at_16ms 0.05 2 5 @ frames_at_16ms 0.001 7 3 @
      frames_at_16ms 0.05 10 2 @ frames_at_16ms 0.001 12 189) vad_init []
     = (vad_init, [[2..<201]]) \<and>
   run_vad silence_threshold silence_duration (frames_at_16ms 0.001 5 189)
     \<lparr>speech_buffer = [0..<5], is_speaking = True, silence_start_time = None\<rparr> []
     = (vad_init, [[0..<194]]) \<and>
   run_vad silence_threshold silence_duration (frames_at_16ms 0.001 6 188)
     \<lparr>speech_buffer = [0..<6], is_speaking = True, silence_start_time = Some 0.08\<rparr> []
     = (vad_init, [[0..<194]])"
proof (intro conjI)
  let ?thr = silence_threshold and ?dur = silence_duration
  let ?onset = "(Fin 0.05, 0::nat, real (0::nat) * 0.016)"
  let ?mid = "frames_at_16ms 0.05 (Suc 0) 4"
  let ?q = "(Fin 0.001, 5::nat, real (5::nat) * 0.016)"
  let ?qs = "frames_at_16ms 0.001 (Suc 5) 187"
  let ?z = "(Fin 0.001, Suc 5 + 187, real (Suc 5 + 187) * 0.016)"
  let ?st = "\<lparr>speech_buffer = [0..<5], is_speaking = True, silence_start_time = None\<rparr>"
  have speech: "frames_at_16ms 0.05 0 5 = ?onset # ?mid"
    using frames_split_first [of "0.05" 0 4] by (simp only: eval_nat_numeral)
  have "frames_at_16ms 0.001 5 (Suc (Suc 187)) =
      ?q # frames_at_16ms 0.001 (Suc 5) (Suc 187)"
    by (rule frames_split_first)
  also have "frames_at_16ms 0.001 (Suc 5) (Suc 187) = ?qs @ [?z]"
    by (rule frames_split_last)
  finally have silence: "frames_at_16ms 0.001 5 189 = ?q # ?qs @ [?z]" by simp
  have e: "[] @ ?onset # ?mid @ ?q # ?qs @ [?z] =
      frames_at_16ms 0.05 0 5 @ frames_at_16ms 0.001 5 189"
    by (simp only: speech silence append_Cons append_Nil)
  have "map frame_of (frames_at_16ms 0.05 0 5 @ frames_at_16ms 0.001 5 189) =
      [0..<0 + 5] @ [5..<5 + 189]"
    by (simp only: map_append frames_map)
  also have "\<dots> = [0..<194]"
    using upt_add_eq_append [of 0 5 189] by (simp del: upt_rec_numeral upt_Suc)
  finally have m: "map frame_of (frames_at_16ms 0.05 0 5 @ frames_at_16ms 0.001 5 189) =
      [0..<194]" .
  have 0: "\<forall>x \<in> set []. \<not> loud ?thr x" by simp
  have 1: "\<not> loud ?thr ?q" by (simp add: py_gt_def silence_threshold_def)
  have 2: "\<forall>x \<in> set ?qs. \<not> loud ?thr x \<and> time_of x - time_of ?q \<le> ?dur"
    by (rule frames_silent_within) (simp_all add: silence_threshold_def silence_duration_def)
  have 3: "\<not> loud ?thr ?z" by (simp add: py_gt_def silence_threshold_def)
  have 4: "time_of ?z - time_of ?q > ?dur" by (simp add: silence_duration_def)
  have 5: "run_vad ?thr ?dur (?onset # ?mid) vad_init [] = (?st, [])"
    by (simp add: frames_at_16ms_def vad_step_def vad_init_def py_gt_def
        silence_threshold_def silence_duration_def upt_conv_Cons)
  have 6: "loud ?thr ?onset" by (simp add: py_gt_def silence_threshold_def)
  note t = utterance_emitted_after_trailing_silence
    [OF 1 2 3 4, of ?st "[]" vad_init "[]" ?onset ?mid,
     THEN conjunct2, THEN conjunct2, rule_format]
  have "run_vad ?thr ?dur ([] @ ?onset # ?mid @ ?q # ?qs @ [?z]) vad_init [] =
      (vad_init, [] @ [map frame_of (?onset # ?mid @ ?q # ?qs @ [?z])])"
    by (rule t) (intro conjI 0 5 6; simp add: vad_init_def)
  then show "run_vad ?thr ?dur (frames_at_16ms 0.05 0 5 @ frames_at_16ms 0.001 5 189)
      vad_init [] = (vad_init, [[0..<194]])"
    using e m by (simp only: append_Nil)
next
  let ?thr = silence_threshold and ?dur = silence_duration
  let ?pre = "frames_at_16ms 0.001 0 2"
  let ?onset = "(Fin 0.05, 2::nat, real (2::nat) * 0.016)"
  let ?mid = "frames_at_16ms 0.05 (Suc 2) 4 @ frames_at_16ms 0.001 7 3 @ frames_at_16ms 0.05 10 2"
  let ?q = "(Fin 0.001, 12::nat, real (12::nat) * 0.016)"
  let ?qs = "frames_at_16ms 0.001 (Suc 12) 187"
  let ?z = "(Fin 0.001, Suc 12 + 187, real (Suc 12 + 187) * 0.016)"
  let ?st = "\<lparr>speech_buffer = [2..<12], is_speaking = True, silence_start_time = None\<rparr>"
  have speech: "frames_at_16ms 0.05 2 5 = ?onset # frames_at_16ms 0.05 (Suc 2) 4"
    using frames_split_first [of "0.05" 2 4] by (simp only: eval_nat_numeral)
  have "frames_at_16ms 0.001 12 (Suc (Suc 187)) =
      ?q # frames_at_16ms 0.001 (Suc 12) (Suc 187)"
    by (rule frames_split_first)
  also have "frames_at_16ms 0.001 (Suc 12) (Suc 187) = ?qs @ [?z]"
    by (rule frames_split_last)
  finally have silence: "frames_at_16ms 0.001 12 189 = ?q # ?qs @ [?z]" by simp
  have e: "?pre @ ?onset # ?mid @ ?q # ?qs @ [?z] =
      frames_at_16ms 0.001 0 2 @ frames_at_16ms 0.05 2 5 @ frames_at_16ms 0.001 7 3 @
      frames_at_16ms 0.05 10 2 @ frames_at_16ms 0.001 12 189"
    by (simp only: speech silence append_Cons append_Nil append_assoc)
  have e': "?onset # ?mid @ ?q # ?qs @ [?z] =
      frames_at_16ms 0.05 2 5 @ frames_at_16ms 0.001 7 3 @
      frames_at_16ms 0.05 10 2 @ frames_at_16ms 0.001 12 189"
    by (simp only: speech silence append_Cons append_Nil append_assoc)
  have "map frame_of (frames_at_16ms 0.05 2 5 @ frames_at_16ms 0.001 7 3 @
      frames_at_16ms 0.05 10 2 @ frames_at_16ms 0.001 12 189) =
      [2..<2 + 5] @ [7..<7 + 3] @ [10..<10 + 2] @ [12..<12 + 189]"
    by (simp only: map_append frames_map)
  also have "\<dots> = [2..<201]"
    using upt_add_eq_append [of 2 7 3] upt_add_eq_append [of 2 10 2]
      upt_add_eq_append [of 2 12 189]
    by (simp del: upt_rec_numeral upt_Suc)
  finally have m: "map frame_of (?onset # ?mid @ ?q # ?qs @ [?z]) = [2..<201]"
    by (simp only: e')
  have 0: "\<forall>x \<in> set ?pre. \<not> loud ?thr x"
    by (auto simp add: frames_at_16ms_def py_gt_def silence_threshold_def)
  have 1: "\<not> loud ?thr ?q" by (simp add: py_gt_def silence_threshold_def)
  have 2: "\<forall>x \<in> set ?qs. \<not> loud ?thr x \<and> time_of x - time_of ?q \<le> ?dur"
    by (rule frames_silent_within) (simp_all add: silence_threshold_def silence_duration_def)
  have 3: "\<not> loud ?thr ?z" by (simp add: py_gt_def silence_threshold_def)
  have 4: "time_of ?z - time_of ?q > ?dur" by (simp add: silence_duration_def)
  have 5: "run_vad ?thr ?dur (?onset # ?mid) vad_init [] = (?st, [])"
    by (simp add: frames_at_16ms_def vad_step_def vad_init_def py_gt_def
        silence_threshold_def silence_duration_def upt_conv_Cons)
  have 6: "loud ?thr ?onset" by (simp add: py_gt_def silence_threshold_def)
  note t = utterance_emitted_after_trailing_silence
    [OF 1 2 3 4, of ?st "[]" vad_init ?pre ?onset ?mid,
     THEN conjunct2, THEN conjunct2, rule_format]
  have "run_vad ?thr ?dur (?pre @ ?onset # ?mid @ ?q # ?qs @ [?z]) vad_init [] =
      (vad_init, [] @ [map frame_of (?onset # ?mid @ ?q # ?qs @ [?z])])"
    by (rule t) (intro conjI 0 5 6; simp add: vad_init_def)
  then show "run_vad ?thr ?dur
     (frames_at_16ms 0.001 0 2 @ frames_at_16ms 0.05 2 5 @ frames_at_16ms 0.001 7 3 @
      frames_at_16ms 0.05 10 2 @ frames_at_16ms 0.001 12 189) vad_init []
     = (vad_init, [[2..<201]])"
    using e m by (simp only: append_Nil)
next
  let ?thr = silence_threshold and ?dur = silence_duration
  let ?q = "(Fin 0.001, 5::nat, real (5::nat) * 0.016)"
  let ?qs = "frames_at_16ms 0.001 (Suc 5) 187"
  let ?z = "(Fin 0.001, Suc 5 + 187, real (Suc 5 + 187) * 0.016)"
  let ?st = "\<lparr>speech_buffer = [0..<5], is_speaking = True, silence_start_time = None\<rparr>"
  have "frames_at_16ms 0.001 5 (Suc (Suc 187)) =
      ?q # frames_at_16ms 0.001 (Suc 5) (Suc 187)"
    by (rule frames_split_first)
  also have "frames_at_16ms 0.001 (Suc 5) (Suc 187) = ?qs @ [?z]"
    by (rule frames_split_last)
  finally have silence: "frames_at_16ms 0.001 5 189 = ?q # ?qs @ [?z]" by simp
  have "[0..<5] @ map frame_of (frames_at_16ms 0.001 5 189) = [0..<0 + 5] @ [5..<5 + 189]"
    by (simp only: frames_map add_0)
  also have "\<dots> = [0..<194]"
    using upt_add_eq_append [of 0 5 189] by (simp del: upt_rec_numeral upt_Suc)
  finally have m: "[0..<5] @ map frame_of (?q # ?qs @ [?z]) = [0..<194]"
    by (simp only: silence)
  have 1: "\<not> loud ?thr ?q" by (simp add: py_gt_def silence_threshold_def)
  have 2: "\<forall>x \<in> set ?qs. \<not> loud ?thr x \<and> time_of x - time_of ?q \<le> ?dur"
    by (rule frames_silent_within) (simp_all add: silence_threshold_def silence_duration_def)
  have 3: "\<not> loud ?thr ?z" by (simp add: py_gt_def silence_threshold_def)
  have 4: "time_of ?z - time_of ?q > ?dur" by (simp add: silence_duration_def)
  have "run_vad ?thr ?dur (?q # ?qs @ [?z]) ?st [] =
      (vad_init, [] @ [speech_buffer ?st @ map frame_of (?q # ?qs @ [?z])])"
    by (rule utterance_emitted_after_trailing_silence
          [OF 1 2 3 4, of ?st "[]", THEN conjunct1, rule_format]) simp
  then show "run_vad ?thr ?dur (frames_at_16ms 0.001 5 189) ?st [] = (vad_init, [[0..<194]])"
    using m by (simp only: silence append_Nil select_convs)
next
  let ?thr = silence_threshold and ?dur = silence_duration
  let ?q = "(Fin 0.001, 5::nat, real (5::nat) * 0.016)"
  let ?qs = "frames_at_16ms 0.001 (Suc 5) 187"
  let ?z = "(Fin 0.001, Suc 5 + 187, real (Suc 5 + 187) * 0.016)"
  let ?st = "\<lparr>speech_buffer = [0..<6], is_speaking = True, silence_start_time = Some 0.08\<rparr>"
  have tail: "frames_at_16ms 0.001 (Suc 5) (Suc 187) = ?qs @ [?z]"
    by (rule frames_split_last)
  then have silence: "frames_at_16ms 0.001 6 188 = ?qs @ [?z]" by simp
  have "[0..<6] @ map frame_of (frames_at_16ms 0.001 6 188) = [0..<0 + 6] @ [6..<6 + 188]"
    by (simp only: frames_map add_0)
  also have "\<dots> = [0..<194]"
    using upt_add_eq_append [of 0 6 188] by (simp del: upt_rec_numeral upt_Suc)
  finally have m: "[0..<6] @ map frame_of (?qs @ [?z]) = [0..<194]"
    by (simp only: silence)
  have 1: "\<not> loud ?thr ?q" by (simp add: py_gt_def silence_threshold_def)
  have 2: "\<forall>x \<in> set ?qs. \<not> loud ?thr x \<and> time_of x - time_of ?q \<le> ?dur"
    by (rule frames_silent_within) (simp_all add: silence_threshold_def silence_duration_def)
  have 3: "\<not> loud ?thr ?z" by (simp add: py_gt_def silence_threshold_def)
  have 4: "time_of ?z - time_of ?q > ?dur" by (simp add: silence_duration_def)
  have "run_vad ?thr ?dur (?qs @ [?z]) ?st [] =
      (vad_init, [] @ [speech_buffer ?st @ map frame_of (?qs @ [?z])])"
    by (rule utterance_emitted_after_trailing_silence
          [OF 1 2 3 4, of ?st "[]", THEN conjunct2, THEN conjunct1, rule_format]) simp
  then show "run_vad ?thr ?dur (frames_at_16ms 0.001 6 188) ?st [] = (vad_init, [[0..<194]])"
    using m by (simp only: silence append_Nil select_convs)
qed

text \<open>
  The stream of the claim hands nothing over whenever the threshold is at least 0.001 and
  below 0.05 and the duration is at least 0.992 s: the last of the 63 silent frames is read
  0.992 s after the first.
\<close>

lemma claimed_stream_no_utterance:
  assumes "thr < 0.05" "0.001 \<le> thr" "0.992 \<le> dur"
  shows "run_vad thr dur (frames_at_16ms 0.05 0 5 @ frames_at_16ms 0.001 5 63) vad_init []
     = (\<lparr>speech_buffer = [0..<68], is_speaking = True, silence_start_time = Some 0.08\<rparr>, [])"
proof -
  let ?sp = "frames_at_16ms 0.05 0 5"
  let ?q = "(Fin 0.001, 5::nat, real (5::nat) * 0.016)"
  let ?qs = "frames_at_16ms 0.001 (Suc 5) 62"
  have "frames_at_16ms 0.001 5 (Suc 62) = ?q # ?qs" by (rule frames_split_first)
  then have silence: "frames_at_16ms 0.001 5 63 = ?q # ?qs" by simp
  have "map frame_of (?sp @ frames_at_16ms 0.001 5 63) = [0..<0 + 5] @ [5..<5 + 63]"
    by (simp only: map_append frames_map)
  also have "\<dots> = [0..<68]"
    using upt_add_eq_append [of 0 5 63] by (simp del: upt_rec_numeral upt_Suc)
  finally have m: "map frame_of (?sp @ ?q # ?qs) = [0..<68]" by (simp only: silence)
  have sp: "?sp \<noteq> []" by (simp add: frames_at_16ms_def)
  have 1: "\<forall>x \<in> set ?sp. loud thr x" by (rule frames_loud) (rule assms(1))
  have 2: "\<not> loud thr ?q" using assms(2) by (simp add: py_gt_def)
  have 3: "\<forall>x \<in> set ?qs. \<not> loud thr x \<and> time_of x - time_of ?q \<le> dur"
    by (rule frames_silent_within) (use assms in simp_all)
  have "run_vad thr dur (?sp @ ?q # ?qs) vad_init [] =
      (\<lparr>speech_buffer = map frame_of (?sp @ ?q # ?qs), is_speaking = True,
        silence_start_time = Some (time_of ?q)\<rparr>, [])"
    by (rule run_vad_no_emission [OF sp 1 2 3])
  then have "run_vad thr dur (?sp @ frames_at_16ms 0.001 5 63) vad_init [] =
      (\<lparr>speech_buffer = [0..<68], is_speaking = True,
        silence_start_time = Some (time_of ?q)\<rparr>, [])"
    by (simp only: m silence)
  then show ?thesis by (simp del: upt_rec_numeral)
qed

text \<open>
  The claim as stated fails. With the loop's constants, the stream of five frames of level
  0.05 and 63 frames of level 0.001 at 16 ms per frame hands no utterance over and leaves
  the segmenter Speaking, all 68 frames buffered. And a silent frame read exactly 3.0 s
  after the last frame above the threshold, or exactly 3.0 s after the first silent frame,
  hands nothing over: the comparison is strict.
\<close>

theorem scenario_A_no_utterance:
  "run_vad silence_threshold silence_duration
     (frames_at_16ms 0.05 0 5 @ frames_at_16ms 0.001 5 63) vad_init []
     = (\<lparr>speech_buffer = [0..<68], is_speaking = True, silence_start_time = Some 0.08\<rparr>, [])
   \<and> run_vad silence_threshold silence_duration
     [(Fin 0.05, 0, 0), (Fin 0.001, 1, 1), (Fin 0.001, 2, 3), (Fin 0.001, 3, 4)] vad_init []
     = (\<lparr>speech_buffer = [0, 1, 2, 3 :: nat], is_speaking = True, silence_start_time = Some 1\<rparr>,
        [])"
proof (intro conjI)
  show "run_vad silence_threshold silence_duration
     (frames_at_16ms 0.05 0 5 @ frames_at_16ms 0.001 5 63) vad_init []
     = (\<lparr>speech_buffer = [0..<68], is_speaking = True, silence_start_time = Some 0.08\<rparr>, [])"
    by (rule claimed_stream_no_utterance)
      (simp_all add: silence_threshold_def silence_duration_def)
  show "run_vad silence_threshold silence_duration
     [(Fin 0.05, 0, 0), (Fin 0.001, 1, 1), (Fin 0.001, 2, 3), (Fin 0.001, 3, 4)] vad_init []
     = (\<lparr>speech_buffer = [0, 1, 2, 3 :: nat], is_speaking = True, silence_start_time = Some 1\<rparr>,
        [])"
    by (simp add: vad_step_def vad_init_def py_gt_def silence_threshold_def
        silence_duration_def)
qed

end
